theory Spec2Isabelle
  imports Main "HOL-Library.Sublist"
begin

section \<open>The selection model directive\<close>

text \<open>
  A shallow embedding of the link function of the \<open>selectionModel\<close> directive
  (\<open>src/scripts/services/selection-model-options.js\<close>, from line 43 on): the item
  lookup \<open>indexOfTrackBy\<close>, the operations on the list of selected items
  (\<open>selectItem\<close>, \<open>deselectAllItemsExcept\<close>, \<open>selectItemsBetween\<close>) and the click
  handler \<open>handleClick\<close>. The watcher of line 445, which reacts to a change of
  \<open>item[selectedAttribute]\<close> made by the host, and \<open>updateDom\<close> are left out.

  Every variable that the JavaScript closure mutates is passed in and returned. A
  JavaScript exception is a value: a function that can raise returns a \<open>result\<close>,
  which is either \<open>Done s\<close> or \<open>Threw e s\<close>, where \<open>s\<close> is the state reached when the
  exception was raised (the mutations made before a \<open>throw\<close> stay in place).
\<close>

subsection \<open>Items\<close>

text \<open>
  An item is an object of the host's collection. The directive reads one field of it,
  \<open>item[trackBy]\<close>, and compares the values of that field with \<open>===\<close>; \<open>oid\<close> is the
  identity of the object, so that two objects with the same track-by value are two
  items. The values of the track-by field are taken to be primitive values on which
  \<open>===\<close> is equality (no \<open>NaN\<close>, no objects). The field \<open>item[selectedAttribute]\<close>,
  which the directive writes, is kept apart from the item (see \<open>selectedAttribute\<close>
  below): the two field names are taken to differ, as the defaults \<open>'selected'\<close> and
  \<open>'Id'\<close> do.
\<close>

datatype 'k item = Item (oid: nat) (trackBy: 'k)

datatype error = TypeError

datatype 'a result = Done 'a | Threw error 'a

fun outcome :: "'a result \<Rightarrow> 'a" where
  "outcome (Done s) = s"
| "outcome (Threw e s) = s"

fun threw :: "'a result \<Rightarrow> bool" where
  "threw (Done s) = False"
| "threw (Threw e s) = True"

text \<open>
  \<open>angular.forEach(array, body)\<close>: the body runs on every element in order; an
  exception raised by the body ends the loop.
\<close>

fun forEach :: "('a \<Rightarrow> 's \<Rightarrow> 's result) \<Rightarrow> 'a list \<Rightarrow> 's \<Rightarrow> 's result" where
  "forEach body [] s = Done s"
| "forEach body (x # xs) s =
     (case body x s of
        Done s' \<Rightarrow> forEach body xs s'
      | Threw e s' \<Rightarrow> Threw e s')"

subsection \<open>indexOfTrackBy (lines 193-200)\<close>

text \<open>
  The loop \<open>for(var i = 0; i < array.length; i += 1)\<close> returns the first index whose
  element has the track-by value of \<open>item\<close>, and \<open>-1\<close> when there is none. The
  parameter \<open>trackByAttr\<close> is always the closure's \<open>trackBy\<close>, here the field \<open>trackBy\<close>
  of an item.
\<close>

fun indexOfTrackBy_from :: "int \<Rightarrow> 'k item list \<Rightarrow> 'k item \<Rightarrow> int" where
  "indexOfTrackBy_from i [] item = - 1"
| "indexOfTrackBy_from i (x # xs) item =
     (if trackBy x = trackBy item then i else indexOfTrackBy_from (i + 1) xs item)"

definition indexOfTrackBy :: "'k item list \<Rightarrow> 'k item \<Rightarrow> int" where
  "indexOfTrackBy array item = indexOfTrackBy_from 0 array item"

text \<open>
  The same function on an array that may hold \<open>undefined\<close> (\<open>None\<close>), as the array
  \<open>[smItem, selectionStack.peek(clickStackId)]\<close> of \<open>handleClick\<close> does: reading
  \<open>array[i][trackByAttr]\<close> at an \<open>undefined\<close> element raises a \<open>TypeError\<close>.
\<close>

fun indexOfTrackBy_undef_from ::
  "int \<Rightarrow> 'k item option list \<Rightarrow> 'k item \<Rightarrow> error + int" where
  "indexOfTrackBy_undef_from i [] item = Inr (- 1)"
| "indexOfTrackBy_undef_from i (None # xs) item = Inl TypeError"
| "indexOfTrackBy_undef_from i (Some x # xs) item =
     (if trackBy x = trackBy item then Inr i
      else indexOfTrackBy_undef_from (i + 1) xs item)"

definition indexOfTrackBy_undef :: "'k item option list \<Rightarrow> 'k item \<Rightarrow> error + int" where
  "indexOfTrackBy_undef array item = indexOfTrackBy_undef_from 0 array item"

text \<open>\<open>array.splice(index, 1)\<close> for an index that is not negative.\<close>

definition splice1 :: "int \<Rightarrow> 'a list \<Rightarrow> 'a list" where
  "splice1 index array = take (nat index) array @ drop (nat index + 1) array"

subsection \<open>The list of selected items (lines 206-209, 241-246)\<close>

text \<open>
  \<open>selectedItemsList\<close> is an array: \<open>isSelected\<close>, which the link function calls
  first thing, reads its \<open>length\<close>.
\<close>

definition isSelected :: "'k item list \<Rightarrow> 'k item \<Rightarrow> bool" where
  "isSelected selectedItemsList item =
     (let index = indexOfTrackBy selectedItemsList item in index > - 1)"

definition selectItem :: "'k item \<Rightarrow> 'k item list \<Rightarrow> 'k item list" where
  "selectItem item selectedItemsList =
     (let index = indexOfTrackBy selectedItemsList item
      in if index = - 1 then selectedItemsList @ [item] else selectedItemsList)"

text \<open>
  The removal that the source writes out in three places (lines 282-285, 410-413 and
  457-460): \<open>index = indexOfTrackBy(selectedItemsList, trackBy, item)\<close>, then
  \<open>if(index > -1) selectedItemsList.splice(index, 1)\<close>.
\<close>

definition deselectItem :: "'k item \<Rightarrow> 'k item list \<Rightarrow> 'k item list" where
  "deselectItem item selectedItemsList =
     (let index = indexOfTrackBy selectedItemsList item
      in if index > - 1 then splice1 index selectedItemsList else selectedItemsList)"

subsection \<open>deselectAllItemsExcept (lines 255-288)\<close>

text \<open>
  The parameter \<open>except\<close> is, by the comment above the function, \<open>undefined\<close>, a single
  item, or an array of two items; an element of the array can itself be \<open>undefined\<close>
  (the result of \<open>selectionStack.peek\<close> on an empty stack). \<open>isRange\<close> holds exactly
  for the array. The variables of the function that the loop body changes are the
  fields of \<open>sweep\<close>: the array \<open>except\<close> (spliced in place), \<open>numItemsFound\<close>,
  \<open>doSelect\<close> and the list of selected items.
\<close>

datatype 'k except = Undefined | Single "'k item" | Range "'k item option" "'k item option"

record 'k sweep =
  exceptArray :: "'k item option list"
  numItemsFound :: nat
  doSelect :: bool
  selectedItems :: "'k item list"

definition isRange :: "'k except \<Rightarrow> bool" where
  "isRange except = (case except of Range a b \<Rightarrow> True | _ \<Rightarrow> False)"

definition selectOrRemove :: "'k item \<Rightarrow> 'k sweep \<Rightarrow> 'k sweep" where
  "selectOrRemove item s =
     (if doSelect s then s\<lparr>selectedItems := selectItem item (selectedItems s)\<rparr>
      else s\<lparr>selectedItems := deselectItem item (selectedItems s)\<rparr>)"

definition deselectBody :: "'k except \<Rightarrow> 'k item \<Rightarrow> 'k sweep \<Rightarrow> 'k sweep result" where
  "deselectBody except item s =
     (if isRange except then
        (case indexOfTrackBy_undef (exceptArray s) item of
           Inl e \<Rightarrow> Threw e s
         | Inr ixItem \<Rightarrow>
             if ixItem > - 1 then
               Done (selectOrRemove item
                 (s\<lparr>numItemsFound := numItemsFound s + 1, doSelect := True,
                     exceptArray := splice1 ixItem (exceptArray s)\<rparr>))
             else
               Done (selectOrRemove item (s\<lparr>doSelect := (1 = numItemsFound s)\<rparr>)))
      else
        (case except of
           Single x \<Rightarrow>
             Done (selectOrRemove item (s\<lparr>doSelect := (trackBy item = trackBy x)\<rparr>))
         | _ \<Rightarrow> Threw TypeError s))"

definition deselectAllItemsExcept ::
  "'k item list \<Rightarrow> 'k except \<Rightarrow> 'k item list \<Rightarrow> 'k sweep result" where
  "deselectAllItemsExcept allItems except selectedItemsList =
     forEach (deselectBody except) allItems
       \<lparr>exceptArray = (case except of Range a b \<Rightarrow> [a, b] | _ \<Rightarrow> []),
        numItemsFound = 0, doSelect = True, selectedItems = []\<rparr>"

subsection \<open>selectItemsBetween (lines 290-306)\<close>

text \<open>
  \<open>this\<close> is the closure's \<open>smItem\<close>; \<open>lastItem || smItem\<close> replaces an \<open>undefined\<close>
  \<open>lastItem\<close> by it. The sum of two booleans \<open>(foundLastItem + foundThisItem) === 1\<close>
  counts the flags that are set.
\<close>

fun betweenBody ::
  "'k item \<Rightarrow> 'k item \<Rightarrow> 'k item \<Rightarrow> bool \<times> bool \<times> 'k item list \<Rightarrow> bool \<times> bool \<times> 'k item list" where
  "betweenBody this lastItem item (foundLastItem, foundThisItem, selectedItemsList) =
     (let foundThisItem' = (foundThisItem \<or> trackBy item = trackBy this);
          foundLastItem' = (foundLastItem \<or> trackBy item = trackBy lastItem);
          inRange = (of_bool foundLastItem' + of_bool foundThisItem' = (1::nat))
      in (foundLastItem', foundThisItem',
          if inRange \<or> trackBy item = trackBy this \<or> trackBy item = trackBy lastItem
          then selectItem item selectedItemsList else selectedItemsList))"

definition selectItemsBetween ::
  "'k item \<Rightarrow> 'k item list \<Rightarrow> 'k item option \<Rightarrow> 'k item list \<Rightarrow> 'k item list" where
  "selectItemsBetween this allVisibleItems lastItem selectedItemsList =
     (let lastItem' = (case lastItem of None \<Rightarrow> this | Some l \<Rightarrow> l)
      in snd (snd (fold (betweenBody this lastItem') allVisibleItems
                     (False, False, selectedItemsList))))"

subsection \<open>The selection stack\<close>

text \<open>
  Modelled from the spec: the service \<open>selectionStack\<close>, which the directive injects
  and whose source is not among the files. By the spec (4.2), \<open>push(groupId, item)\<close>
  records \<open>item\<close> as the most recent anchor of the group and returns nothing, and
  \<open>peek(groupId)\<close> returns the item pushed last for the group, or \<open>undefined\<close> when
  none ever was; a push for one group does not affect another. An identifier is a
  string, or \<open>null\<close> (\<open>None\<close>): \<open>clickStackId\<close> is \<open>null\<close> outside the multi modes.
\<close>

type_synonym 'k stacks = "string option \<Rightarrow> 'k item list"

definition push :: "string option \<Rightarrow> 'k item \<Rightarrow> 'k stacks \<Rightarrow> 'k stacks" where
  "push groupId item stacks = stacks(groupId := item # stacks groupId)"

definition peek :: "string option \<Rightarrow> 'k stacks \<Rightarrow> 'k item option" where
  "peek groupId stacks = (case stacks groupId of [] \<Rightarrow> None | item # older \<Rightarrow> Some item)"

subsection \<open>The directive instance, the shared state and the click event\<close>

text \<open>
  One instance of the directive is linked for every row of the repeated list. Its
  closure holds \<open>smItem\<close> (the row's item), the mode and the type (lines 76 and 90),
  the identifier of the group's stack (lines 151-175) and the element of the row, of
  which the handler reads only the ids of the \<open>INPUT\<close> elements below it. The two
  collections are the values of \<open>getAllItems()\<close> and \<open>getAllVisibleItems()\<close> (lines
  225-233) at the time of the call. \<open>exceptionHandler\<close> is the host's
  \<open>$exceptionHandler\<close>, to which \<open>scope.$apply(fn)\<close> hands an exception that \<open>fn\<close>
  raises: the handler either logs it, and \<open>$apply\<close> returns, or throws it again.
\<close>

datatype exceptionPolicy = LogError | Rethrow

record 'k directive =
  smItem :: "'k item"
  smMode :: string
  smType :: string
  stackId :: string
  allItems :: "'k item list"
  allVisibleItems :: "'k item list"
  childInputIds :: "string list"
  exceptionHandler :: exceptionPolicy

text \<open>
  The regular expressions of lines 91 and 92: \<open>/^multi(ple)?(-additive)?$/\<close> and
  \<open>/^multi(ple)?-additive/\<close> (the second is not anchored at the end).
\<close>

definition isMultiMode :: "string \<Rightarrow> bool" where
  "isMultiMode mode =
     (mode = ''multi'' \<or> mode = ''multiple'' \<or> mode = ''multi-additive''
      \<or> mode = ''multiple-additive'')"

definition isModeAdditive :: "string \<Rightarrow> bool" where
  "isModeAdditive mode =
     (prefix ''multi-additive'' mode \<or> prefix ''multiple-additive'' mode)"

definition clickStackId :: "'k directive \<Rightarrow> string option" where
  "clickStackId d = (if \<not> isMultiMode (smMode d) then None else Some (stackId d))"

text \<open>
  The state that the instances of one list share: the list of selected items, the
  stacks of the service, the field \<open>item[selectedAttribute]\<close> of every object (by its
  identity; \<open>None\<close> before the first write), and the exceptions that the host's
  \<open>$exceptionHandler\<close> has logged.
\<close>

record 'k state =
  selectedItemsList :: "'k item list"
  stacks :: "'k stacks"
  selectedAttribute :: "nat \<Rightarrow> bool option"
  logged :: "error list"

text \<open>
  The click event. \<open>originalEvent\<close> is the native event below a jQuery event
  (absent under jqLite, where the event is the native one); \<open>target\<close> stands for
  \<open>event.target || event.srcElement\<close>, of which the handler reads the tag name, the
  \<open>type\<close>, the attribute \<open>for\<close> and the number of \<open>INPUT\<close> elements below it.
\<close>

record nativeEvent =
  nativeIgnore :: bool
  nativeClickHandled :: bool

record target =
  tagName :: string
  inputType :: string
  forAttr :: "string option"
  nestedInputs :: nat

record event =
  selectionModelIgnore :: bool
  selectionModelClickHandled :: bool
  originalEvent :: "nativeEvent option"
  ctrlKey :: bool
  metaKey :: bool
  shiftKey :: bool
  target :: target

subsection \<open>updateSelectedAttributeValue (lines 235-239)\<close>

definition updateSelectedAttributeValue :: "'k directive \<Rightarrow> 'k state \<Rightarrow> 'k state" where
  "updateSelectedAttributeValue d st =
     st\<lparr>selectedAttribute :=
          fold (\<lambda>item attr. attr(oid item \<mapsto> isSelected (selectedItemsList st) item))
            (allVisibleItems d) (selectedAttribute st)\<rparr>"

subsection \<open>handleClick (lines 330-431)\<close>

text \<open>
  The two guards at the head of the handler (lines 339 and 346), and the marking of
  the event and of its native event (lines 349-352).
\<close>

definition ignoreRequested :: "event \<Rightarrow> bool" where
  "ignoreRequested event =
     (selectionModelIgnore event
      \<or> (case originalEvent event of None \<Rightarrow> False | Some orig \<Rightarrow> nativeIgnore orig))"

definition clickHandled :: "event \<Rightarrow> bool" where
  "clickHandled event =
     (selectionModelClickHandled event
      \<or> (case originalEvent event of None \<Rightarrow> False | Some orig \<Rightarrow> nativeClickHandled orig))"

definition markHandled :: "event \<Rightarrow> event" where
  "markHandled event =
     event\<lparr>selectionModelClickHandled := True,
           originalEvent :=
             (case originalEvent event of
                None \<Rightarrow> None
              | Some orig \<Rightarrow> Some (orig\<lparr>nativeClickHandled := True\<rparr>))\<rparr>"

text \<open>
  The guard against label and checkbox clicks (lines 369-383): it holds when the
  handler returns there. An empty \<open>for\<close> attribute is falsy.
\<close>

definition labelSuppressed :: "'k directive \<Rightarrow> target \<Rightarrow> bool" where
  "labelSuppressed d tgt =
     (tagName tgt = ''LABEL'' \<and>
      (case forAttr tgt of
         None \<Rightarrow> 0 < nestedInputs tgt
       | Some labelFor \<Rightarrow>
           if labelFor \<noteq> [] then labelFor \<in> set (childInputIds d)
           else 0 < nestedInputs tgt))"

text \<open>
  \<open>scope.$apply(fn)\<close> (line 389) runs \<open>fn\<close> and hands an exception of \<open>fn\<close> to the
  host's \<open>$exceptionHandler\<close>. The digest that \<open>$apply\<close> then starts belongs to the
  host and is not modelled; \<open>scope.$apply()\<close> without a function is only that digest.
\<close>

definition scopeApply :: "'k directive \<Rightarrow> 'k state result \<Rightarrow> 'k state result" where
  "scopeApply d r =
     (case r of
        Done st \<Rightarrow> Done st
      | Threw e st \<Rightarrow>
          (case exceptionHandler d of
             LogError \<Rightarrow> Done (st\<lparr>logged := logged st @ [e]\<rparr>)
           | Rethrow \<Rightarrow> Threw e st))"

text \<open>\<open>deselectAllItemsExcept\<close> as the closure runs it, on the shared list.\<close>

definition deselectAllExcept :: "'k directive \<Rightarrow> 'k except \<Rightarrow> 'k state \<Rightarrow> 'k state result" where
  "deselectAllExcept d except st =
     map_result (\<lambda>s. st\<lparr>selectedItemsList := selectedItems s\<rparr>)
       (deselectAllItemsExcept (allItems d) except (selectedItemsList st))"

text \<open>The branch of the shift key in a multi mode (lines 386-396).\<close>

definition rangeClick :: "'k directive \<Rightarrow> bool \<Rightarrow> 'k state \<Rightarrow> 'k state result" where
  "rangeClick d isCtrlKeyDown st =
     (case (if \<not> isCtrlKeyDown
            then scopeApply d
                   (deselectAllExcept d
                      (Range (Some (smItem d)) (peek (clickStackId d) (stacks st))) st)
            else Done st) of
        Threw e st' \<Rightarrow> Threw e st'
      | Done st' \<Rightarrow>
          Done (st'\<lparr>selectedItemsList :=
                      selectItemsBetween (smItem d) (allVisibleItems d)
                        (peek (clickStackId d) (stacks st')) (selectedItemsList st')\<rparr>))"

text \<open>
  The toggle (lines 399-420). \<open>updateDom\<close> changes only the class and the checkbox of
  the row's element, which are not part of the state.
\<close>

definition toggleClick :: "'k directive \<Rightarrow> 'k state \<Rightarrow> 'k state result" where
  "toggleClick d st =
     (let isSelectedResult = (\<not> isSelected (selectedItemsList st) (smItem d))
      in case (if \<not> isMultiMode (smMode d)
               then deselectAllExcept d (Single (smItem d)) st else Done st) of
           Threw e st' \<Rightarrow> Threw e st'
         | Done st' \<Rightarrow>
             Done (updateSelectedAttributeValue d
               (if isSelectedResult then
                  st'\<lparr>stacks := push (clickStackId d) (smItem d) (stacks st'),
                       selectedItemsList := selectItem (smItem d) (selectedItemsList st')\<rparr>
                else
                  st'\<lparr>selectedItemsList :=
                         deselectItem (smItem d) (selectedItemsList st')\<rparr>)))"

text \<open>The click without a modifier key (lines 422-430).\<close>

definition plainClick :: "'k directive \<Rightarrow> 'k state \<Rightarrow> 'k state result" where
  "plainClick d st =
     (case deselectAllExcept d (Single (smItem d)) st of
        Threw e st' \<Rightarrow> Threw e st'
      | Done st' \<Rightarrow>
          Done (st'\<lparr>stacks := push (clickStackId d) (smItem d) (stacks st'),
                     selectedItemsList := selectItem (smItem d) (selectedItemsList st')\<rparr>))"

text \<open>
  The handler returns the event, which it marks, and the state. The event is marked
  before any of the three branches runs, so it is marked also when a branch raises.
\<close>

definition handleClick ::
  "'k directive \<Rightarrow> event \<Rightarrow> 'k state \<Rightarrow> (event \<times> 'k state) result" where
  "handleClick d event st =
     (if ignoreRequested event then Done (event, st)
      else if clickHandled event then Done (event, st)
      else
        (let event' = markHandled event;
             isCtrlKeyDown = (ctrlKey event' \<or> metaKey event' \<or> isModeAdditive (smMode d));
             isShiftKeyDown = shiftKey event';
             isCheckboxClick =
               (''checkbox'' = smType d \<and> ''INPUT'' = tagName (target event')
                \<and> ''checkbox'' = inputType (target event'))
         in if labelSuppressed d (target event') then Done (event', st)
            else if isShiftKeyDown \<and> isMultiMode (smMode d) \<and> \<not> isCheckboxClick then
              map_result (Pair event') (rangeClick d isCtrlKeyDown st)
            else if isCtrlKeyDown \<or> isShiftKeyDown \<or> isCheckboxClick then
              map_result (Pair event') (toggleClick d st)
            else map_result (Pair event') (plainClick d st)))"

subsection \<open>Sequences of operations\<close>

text \<open>
  The operations on the list of selected items, as a host or a user can trigger
  them one after the other. An operation that raises leaves the state that it had
  reached, and the next operation starts from there.
\<close>

datatype 'k operation =
    Select "'k item"
  | Deselect "'k item"
  | DeselectAllExcept "'k directive" "'k except"
  | SelectBetween "'k directive" "'k item option"
  | Click "'k directive" event

fun perform :: "'k operation \<Rightarrow> 'k state \<Rightarrow> 'k state" where
  "perform (Select item) st =
     st\<lparr>selectedItemsList := selectItem item (selectedItemsList st)\<rparr>"
| "perform (Deselect item) st =
     st\<lparr>selectedItemsList := deselectItem item (selectedItemsList st)\<rparr>"
| "perform (DeselectAllExcept d except) st = outcome (deselectAllExcept d except st)"
| "perform (SelectBetween d lastItem) st =
     st\<lparr>selectedItemsList :=
          selectItemsBetween (smItem d) (allVisibleItems d) lastItem (selectedItemsList st)\<rparr>"
| "perform (Click d event) st = snd (outcome (handleClick d event st))"

text \<open>
  Two notifications belong to the same physical click when the second listener gets
  the event object that the first one got (jqLite), or another wrapper around the
  same native event (jQuery).
\<close>

definition samePhysicalClick :: "event \<Rightarrow> event \<Rightarrow> bool" where
  "samePhysicalClick first second =
     (second = first
      \<or> (originalEvent first \<noteq> None \<and> originalEvent second = originalEvent first))"

text \<open>
  A click with the ctrl or the meta key and without the shift key, on an event that
  no listener has handled or asked to ignore, and that the label guard lets through.
\<close>

definition ctrlClick :: "'k directive \<Rightarrow> event \<Rightarrow> bool" where
  "ctrlClick d event =
     (\<not> ignoreRequested event \<and> \<not> clickHandled event
      \<and> (ctrlKey event \<or> metaKey event) \<and> \<not> shiftKey event
      \<and> \<not> labelSuppressed d (target event))"

text \<open>
  The part of a collection from its first item that has the track-by value of one of
  two items.
\<close>

definition fromFirstMatch :: "'k item \<Rightarrow> 'k item \<Rightarrow> 'k item list \<Rightarrow> 'k item list" where
  "fromFirstMatch a b items =
     dropWhile (\<lambda>item. trackBy item \<noteq> trackBy a \<and> trackBy item \<noteq> trackBy b) items"

subsection \<open>The scenario of the specification\<close>

text \<open>
  The list \<open>[{id:1},{id:2},{id:3},{id:4}]\<close> tracked by \<open>id\<close>, in mode \<open>multi\<close> and of
  type \<open>basic\<close>, nothing filtered out, one directive instance for every row; a click
  on a row's element with the given modifier keys; and the state before the first
  click.
\<close>

definition scenarioItems :: "int item list" where
  "scenarioItems = [Item 0 1, Item 1 2, Item 2 3, Item 3 4]"

definition scenarioRow :: "exceptionPolicy \<Rightarrow> int item \<Rightarrow> int directive" where
  "scenarioRow handler item =
     \<lparr>smItem = item, smMode = ''multi'', smType = ''basic'', stackId = ''list'',
      allItems = scenarioItems, allVisibleItems = scenarioItems, childInputIds = [],
      exceptionHandler = handler\<rparr>"

definition clickWith :: "bool \<Rightarrow> bool \<Rightarrow> event" where
  "clickWith ctrl shift =
     \<lparr>selectionModelIgnore = False, selectionModelClickHandled = False,
      originalEvent = None, ctrlKey = ctrl, metaKey = False, shiftKey = shift,
      target = \<lparr>tagName = ''LI'', inputType = [], forAttr = None, nestedInputs = 0\<rparr>\<rparr>"

definition initialState :: "'k state" where
  "initialState =
     \<lparr>selectedItemsList = [], stacks = (\<lambda>groupId. []),
      selectedAttribute = (\<lambda>object. None), logged = []\<rparr>"

section \<open>Properties\<close>

subsection \<open>The item lookup and the list of selected items\<close>

lemma indexOfTrackBy_from_absent:
  "trackBy x \<notin> trackBy ` set xs \<Longrightarrow> indexOfTrackBy_from i xs x = - 1"
  by (induction xs arbitrary: i) auto

lemma indexOfTrackBy_from_present:
  "trackBy x \<in> trackBy ` set xs \<Longrightarrow>
   indexOfTrackBy_from i xs x = i + int (length (takeWhile (\<lambda>y. trackBy y \<noteq> trackBy x) xs))"
  by (induction xs arbitrary: i) auto

lemma indexOfTrackBy_absent:
  "trackBy x \<notin> trackBy ` set xs \<Longrightarrow> indexOfTrackBy xs x = - 1"
  by (simp add: indexOfTrackBy_def indexOfTrackBy_from_absent)

lemma indexOfTrackBy_present:
  "trackBy x \<in> trackBy ` set xs \<Longrightarrow>
   indexOfTrackBy xs x = int (length (takeWhile (\<lambda>y. trackBy y \<noteq> trackBy x) xs))"
  by (simp add: indexOfTrackBy_def indexOfTrackBy_from_present)

lemma isSelected_iff: "isSelected xs x \<longleftrightarrow> trackBy x \<in> trackBy ` set xs"
  by (cases "trackBy x \<in> trackBy ` set xs")
     (simp_all add: isSelected_def indexOfTrackBy_absent indexOfTrackBy_present)

lemma selectItem_present: "trackBy x \<in> trackBy ` set xs \<Longrightarrow> selectItem x xs = xs"
  unfolding selectItem_def by (simp add: indexOfTrackBy_present)

lemma selectItem_absent: "trackBy x \<notin> trackBy ` set xs \<Longrightarrow> selectItem x xs = xs @ [x]"
  unfolding selectItem_def by (simp add: indexOfTrackBy_absent)

lemma selectItem_eq:
  "selectItem x xs = (if trackBy x \<in> trackBy ` set xs then xs else xs @ [x])"
  by (simp add: selectItem_present selectItem_absent)

lemma splice1_takeWhile:
  "splice1 (int (length (takeWhile P xs))) xs = takeWhile P xs @ tl (dropWhile P xs)"
proof -
  have t: "take (length (takeWhile P xs)) xs = takeWhile P xs"
    by (rule takeWhile_eq_take [symmetric])
  have d: "drop (length (takeWhile P xs)) xs = dropWhile P xs"
    by (rule dropWhile_eq_drop [symmetric])
  have "drop (Suc (length (takeWhile P xs))) xs = tl (drop (length (takeWhile P xs)) xs)"
    by (simp add: drop_Suc tl_drop)
  with t d show ?thesis by (simp add: splice1_def)
qed

lemma deselectItem_eq:
  "deselectItem x xs =
     (if trackBy x \<in> trackBy ` set xs
      then takeWhile (\<lambda>y. trackBy y \<noteq> trackBy x) xs
           @ tl (dropWhile (\<lambda>y. trackBy y \<noteq> trackBy x) xs)
      else xs)"
  by (cases "trackBy x \<in> trackBy ` set xs")
     (simp_all add: deselectItem_def indexOfTrackBy_absent indexOfTrackBy_present
        splice1_takeWhile)

lemma deselectItem_Nil: "deselectItem x [] = []"
  by (simp add: deselectItem_eq)

lemma deselectItem_Cons:
  "deselectItem x (y # ys) = (if trackBy y = trackBy x then ys else y # deselectItem x ys)"
  by (auto simp: deselectItem_eq)

lemma distinct_selectItem:
  "distinct (map trackBy xs) \<Longrightarrow> distinct (map trackBy (selectItem x xs))"
  by (auto simp: selectItem_eq)

lemma keys_selectItem:
  "trackBy ` set (selectItem x xs) = insert (trackBy x) (trackBy ` set xs)"
  by (auto simp: selectItem_eq)

lemma set_deselectItem: "set (deselectItem x xs) \<subseteq> set xs"
  by (induction xs) (auto simp: deselectItem_Nil deselectItem_Cons)

lemma distinct_deselectItem:
  "distinct (map trackBy xs) \<Longrightarrow> distinct (map trackBy (deselectItem x xs))"
proof (induction xs)
  case Nil
  then show ?case by (simp add: deselectItem_Nil)
next
  case (Cons y ys)
  then show ?case
    using set_deselectItem [of x ys] by (auto simp: deselectItem_Cons)
qed

lemma deselect_select:
  "\<not> isSelected xs x \<Longrightarrow> deselectItem x (selectItem x xs) = xs"
  by (induction xs)
     (auto simp: isSelected_iff selectItem_eq deselectItem_Cons deselectItem_Nil)

text \<open>
  C9. Selecting an item twice in a row gives the list that selecting it once gives:
  \<open>selectItem\<close> appends the item only when the list has no entry with its track-by
  value, and leaves the list as it is otherwise.
\<close>

theorem selectItem_idempotent:
  "selectItem item (selectItem item selected) = selectItem item selected
   \<and> selectItem item selected =
       (if trackBy item \<in> trackBy ` set selected then selected
        else selected @ [item])"
proof -
  have "trackBy item \<in> trackBy ` set (selectItem item selected)"
    by (simp add: keys_selectItem)
  then have "selectItem item (selectItem item selected)
      = selectItem item selected"
    by (rule selectItem_present)
  then show ?thesis
    using selectItem_eq [of item selected] by simp
qed

subsection \<open>The scenario, and the two calls that raise\<close>

lemmas model_defs =
  handleClick_def rangeClick_def toggleClick_def plainClick_def deselectAllExcept_def
  deselectAllItemsExcept_def deselectBody_def selectOrRemove_def isRange_def
  selectItemsBetween_def scopeApply_def updateSelectedAttributeValue_def
  ignoreRequested_def clickHandled_def markHandled_def labelSuppressed_def
  isMultiMode_def isModeAdditive_def clickStackId_def push_def peek_def
  selectItem_def deselectItem_def isSelected_def indexOfTrackBy_def indexOfTrackBy_undef_def
  splice1_def

lemmas scenario_defs = scenarioItems_def scenarioRow_def clickWith_def initialState_def

text \<open>
  C1. In the scenario (mode \<open>multi\<close>, the four items tracked by \<open>id\<close>, nothing
  selected), a plain click on item 1, a shift-click on item 3, a ctrl-click on item 4
  and a plain click on item 2 give, one after the other, the selections \<open>{1}\<close>,
  \<open>{1,2,3}\<close>, \<open>{1,2,3,4}\<close> and \<open>{2}\<close> as sets of track-by values, and no click
  raises, whatever the host's exception handler is.
\<close>

theorem end_to_end_scenario:
  "(let r1 = handleClick (scenarioRow handler (Item 0 1)) (clickWith False False) initialState;
        s1 = snd (outcome r1);
        r2 = handleClick (scenarioRow handler (Item 2 3)) (clickWith False True) s1;
        s2 = snd (outcome r2);
        r3 = handleClick (scenarioRow handler (Item 3 4)) (clickWith True False) s2;
        s3 = snd (outcome r3);
        r4 = handleClick (scenarioRow handler (Item 1 2)) (clickWith False False) s3;
        s4 = snd (outcome r4)
    in \<not> threw r1 \<and> trackBy ` set (selectedItemsList s1) = {1}
     \<and> \<not> threw r2 \<and> trackBy ` set (selectedItemsList s2) = {1, 2, 3}
     \<and> \<not> threw r3 \<and> trackBy ` set (selectedItemsList s3) = {1, 2, 3, 4}
     \<and> \<not> threw r4 \<and> trackBy ` set (selectedItemsList s4) = {2})"
  by (simp add: Let_def model_defs scenario_defs)

text \<open>
  C3. A shift-click (no ctrl or meta key, not on a checkbox) in mode \<open>multi\<close> with an
  empty stack does not degrade to a range of one item without failing: in the
  scenario, before any other click, the shift-click on item 3 calls
  \<open>deselectAllItemsExcept([smItem, undefined])\<close>, and at the first item of the
  collection \<open>indexOfTrackBy\<close> reads the track-by field of \<open>undefined\<close> and raises a
  \<open>TypeError\<close>. When the host's exception handler throws again, the click handler
  ends with that exception and nothing is selected; when it only logs, the
  exception is logged and the handler goes on and selects the clicked item.
\<close>

theorem shift_click_on_empty_stack_raises:
  "peek (clickStackId (scenarioRow Rethrow (Item 2 3))) (stacks initialState) = None
   \<and> deselectAllItemsExcept scenarioItems (Range (Some (Item 2 3)) None) []
       = Threw TypeError \<lparr>exceptArray = [Some (Item 2 3), None], numItemsFound = 0,
                          doSelect = True, selectedItems = []\<rparr>
   \<and> handleClick (scenarioRow Rethrow (Item 2 3)) (clickWith False True) initialState
       = Threw TypeError (markHandled (clickWith False True), initialState)
   \<and> handleClick (scenarioRow LogError (Item 2 3)) (clickWith False True) initialState
       = Done (markHandled (clickWith False True),
               initialState\<lparr>selectedItemsList := [Item 2 3], logged := [TypeError]\<rparr>)"
  by (simp add: Let_def model_defs scenario_defs)

text \<open>
  C4. \<open>deselectAllItemsExcept(undefined)\<close> does not complete on a collection that
  has an item: the list of selected items is emptied, and at the first item
  \<open>except[trackBy]\<close> reads a field of \<open>undefined\<close> and raises a \<open>TypeError\<close>. Only on
  an empty collection does the call return, with the list empty.
\<close>

theorem deselect_all_except_undefined_raises:
  "deselectAllItemsExcept (item # items) Undefined selected
     = Threw TypeError \<lparr>exceptArray = [], numItemsFound = 0, doSelect = True,
                        selectedItems = []\<rparr>
   \<and> deselectAllItemsExcept [] Undefined selected
     = Done \<lparr>exceptArray = [], numItemsFound = 0, doSelect = True, selectedItems = []\<rparr>"
  by (simp add: deselectAllItemsExcept_def deselectBody_def isRange_def)

subsection \<open>Results, loops and the marking of events\<close>

lemma outcome_map_result: "outcome (map_result f r) = f (outcome r)"
  by (cases r) simp_all

lemma threw_map_result: "threw (map_result f r) = threw r"
  by (cases r) simp_all

lemma clickHandled_markHandled: "clickHandled (markHandled event)"
  by (simp add: clickHandled_def markHandled_def)

lemma handleClick_skips:
  "ignoreRequested event \<or> clickHandled event \<Longrightarrow> handleClick d event st = Done (event, st)"
  by (auto simp: handleClick_def)

lemma handleClick_marks:
  "\<not> ignoreRequested event \<Longrightarrow> \<not> clickHandled event \<Longrightarrow>
   fst (outcome (handleClick d event st)) = markHandled event"
  by (simp add: handleClick_def Let_def outcome_map_result)

lemma samePhysicalClick_handled:
  "samePhysicalClick (markHandled event) second \<Longrightarrow> clickHandled second"
  by (auto simp: samePhysicalClick_def clickHandled_def markHandled_def split: option.splits)


text \<open>
  C8. A click whose event is flagged to be ignored, or carries the mark of a handled
  click (on the event or on its native event), changes nothing: the handler returns
  the event and the state as they are, the list of selected items and the stacks
  included. So of two notifications of one physical click, the first of which the
  handler has processed, the second changes nothing, in whatever instance and state
  it arrives.
\<close>

theorem handled_click_changes_nothing:
  "(ignoreRequested event \<or> clickHandled event \<longrightarrow>
      handleClick d event st = Done (event, st))
   \<and> (\<not> ignoreRequested event \<and> \<not> clickHandled event
        \<and> samePhysicalClick (fst (outcome (handleClick d event st))) second \<longrightarrow>
      handleClick d' second st' = Done (second, st'))"
proof (intro conjI impI)
  assume "ignoreRequested event \<or> clickHandled event"
  then show "handleClick d event st = Done (event, st)" by (rule handleClick_skips)
next
  assume a: "\<not> ignoreRequested event \<and> \<not> clickHandled event
    \<and> samePhysicalClick (fst (outcome (handleClick d event st))) second"
  then have "samePhysicalClick (markHandled event) second"
    using handleClick_marks [of event d st] by auto
  then have "clickHandled second" by (rule samePhysicalClick_handled)
  then show "handleClick d' second st' = Done (second, st')"
    by (simp add: handleClick_skips)
qed

theorem handled_click_changes_nothing_witness:
  "clickHandled (markHandled (clickWith False False))
   \<and> handleClick (scenarioRow LogError (Item 1 2)) (markHandled (clickWith False False))
        (initialState\<lparr>selectedItemsList := [Item 0 1]\<rparr>)
       = Done (markHandled (clickWith False False), initialState\<lparr>selectedItemsList := [Item 0 1]\<rparr>)
   \<and> \<not> ignoreRequested (clickWith False False) \<and> \<not> clickHandled (clickWith False False)
   \<and> samePhysicalClick
        (fst (outcome (handleClick (scenarioRow LogError (Item 0 (1::int))) (clickWith False False)
           initialState)))
        (markHandled (clickWith False False))
   \<and> handleClick (scenarioRow LogError (Item 0 1)) (markHandled (clickWith False False))
        (snd (outcome (handleClick (scenarioRow LogError (Item 0 1)) (clickWith False False)
           initialState)))
       = Done (markHandled (clickWith False False),
          snd (outcome (handleClick (scenarioRow LogError (Item 0 1)) (clickWith False False)
           initialState)))"
proof -
  have h: "clickHandled (markHandled (clickWith False False))"
    by (simp add: clickHandled_def markHandled_def clickWith_def)
  have f: "\<not> ignoreRequested (clickWith False False) \<and> \<not> clickHandled (clickWith False False)"
    by (simp add: ignoreRequested_def clickHandled_def clickWith_def)
  have s: "samePhysicalClick
        (fst (outcome (handleClick (scenarioRow LogError (Item 0 (1::int))) (clickWith False False)
           initialState)))
        (markHandled (clickWith False False))"
    by (simp add: Let_def model_defs scenario_defs samePhysicalClick_def)
  show ?thesis
    using h f s
      handled_click_changes_nothing [of "markHandled (clickWith False False)"
        "scenarioRow LogError (Item 1 2)" "initialState\<lparr>selectedItemsList := [Item 0 1]\<rparr>"]
      handled_click_changes_nothing [of "clickWith False False"
        "scenarioRow LogError (Item 0 1)" initialState "markHandled (clickWith False False)"
        "scenarioRow LogError (Item 0 1)"
        "snd (outcome (handleClick (scenarioRow LogError (Item 0 1)) (clickWith False False)
           initialState))"]
    by blast
qed

subsection \<open>The sweep of deselectAllItemsExcept and the toggle\<close>

lemma not_threw_Done: "\<not> threw r \<Longrightarrow> r = Done (outcome r)"
  by (cases r) simp_all

lemma forEach_invariant:
  assumes step: "\<And>x s. P s \<Longrightarrow> P (outcome (body x s))"
    and init: "P s"
  shows "P (outcome (forEach body xs s))"
  using init
proof (induction xs arbitrary: s)
  case Nil
  then show ?case by simp
next
  case (Cons x xs)
  from step [OF Cons.prems] have "P (outcome (body x s))" .
  then show ?case
    using Cons.IH by (cases "body x s") simp_all
qed

lemma forEach_not_threw:
  assumes "\<And>x s. \<not> threw (body x s)"
  shows "\<not> threw (forEach body xs s)"
proof (induction xs arbitrary: s)
  case Nil
  show ?case by simp
next
  case (Cons x xs)
  then show ?case
    using assms [of x s] by (cases "body x s") simp_all
qed

lemma distinct_selectOrRemove:
  "distinct (map trackBy (selectedItems s)) \<Longrightarrow>
   distinct (map trackBy (selectedItems (selectOrRemove item s)))"
  by (simp add: selectOrRemove_def distinct_selectItem distinct_deselectItem)

lemma distinct_deselectBody:
  "distinct (map trackBy (selectedItems s)) \<Longrightarrow>
   distinct (map trackBy (selectedItems (outcome (deselectBody except item s))))"
  by (auto simp: deselectBody_def distinct_selectOrRemove split: sum.splits except.splits)

lemma distinct_deselectAllItemsExcept:
  "distinct (map trackBy (selectedItems (outcome (deselectAllItemsExcept items except selected))))"
  unfolding deselectAllItemsExcept_def
  by (rule forEach_invariant [where P = "\<lambda>s. distinct (map trackBy (selectedItems s))"])
     (simp_all add: distinct_deselectBody)

lemma single_not_threw:
  "\<not> threw (deselectAllItemsExcept items (Single x) selected)"
  unfolding deselectAllItemsExcept_def
  by (rule forEach_not_threw) (simp add: deselectBody_def isRange_def)

lemma deselectAllExcept_Single:
  "deselectAllExcept d (Single x) st =
     Done (st\<lparr>selectedItemsList :=
       selectedItems (outcome (deselectAllItemsExcept (allItems d) (Single x) (selectedItemsList st)))\<rparr>)"
proof -
  have "deselectAllItemsExcept (allItems d) (Single x) (selectedItemsList st)
      = Done (outcome (deselectAllItemsExcept (allItems d) (Single x) (selectedItemsList st)))"
    by (rule not_threw_Done [OF single_not_threw])
  then have "deselectAllExcept d (Single x) st
      = map_result (\<lambda>s. st\<lparr>selectedItemsList := selectedItems s\<rparr>)
          (Done (outcome (deselectAllItemsExcept (allItems d) (Single x) (selectedItemsList st))))"
    unfolding deselectAllExcept_def by simp
  then show ?thesis by simp
qed

lemma selectedItemsList_update [simp]:
  "selectedItemsList (updateSelectedAttributeValue d st) = selectedItemsList st"
  by (simp add: updateSelectedAttributeValue_def)

lemma stacks_update [simp]:
  "stacks (updateSelectedAttributeValue d st) = stacks st"
  by (simp add: updateSelectedAttributeValue_def)

lemma peek_push: "peek g (push g x s) = Some x"
  by (simp add: peek_def push_def)

lemma absent_deselectItem:
  "distinct (map trackBy xs) \<Longrightarrow> trackBy x \<notin> trackBy ` set (deselectItem x xs)"
proof (induction xs)
  case Nil
  show ?case by (simp add: deselectItem_Nil)
next
  case (Cons y ys)
  show ?case
  proof (cases "trackBy y = trackBy x")
    case True
    with Cons.prems show ?thesis by (simp add: deselectItem_Cons)
  next
    case False
    with Cons show ?thesis by (simp add: deselectItem_Cons)
  qed
qed

lemma handleClick_ctrlClick:
  "ctrlClick d event \<Longrightarrow>
   handleClick d event st = map_result (Pair (markHandled event)) (toggleClick d st)"
  by (auto simp: ctrlClick_def handleClick_def Let_def markHandled_def)


lemma toggleClick_unselected:
  assumes "\<not> isSelected (selectedItemsList st) (smItem d)"
  shows "\<exists>st'. toggleClick d st = Done st'
           \<and> stacks st' = push (clickStackId d) (smItem d) (stacks st)
           \<and> isSelected (selectedItemsList st') (smItem d)
           \<and> (isMultiMode (smMode d) \<longrightarrow>
                selectedItemsList st' = selectItem (smItem d) (selectedItemsList st))"
  using assms
  by (simp add: toggleClick_def deselectAllExcept_Single isSelected_iff keys_selectItem)

lemma toggleClick_selected:
  assumes "isSelected (selectedItemsList st) (smItem d)"
  shows "\<exists>st'. toggleClick d st = Done st'
           \<and> stacks st' = stacks st
           \<and> selectedItemsList st' =
               deselectItem (smItem d)
                 (if isMultiMode (smMode d) then selectedItemsList st
                  else selectedItems (outcome (deselectAllItemsExcept (allItems d)
                         (Single (smItem d)) (selectedItemsList st))))"
  using assms
  by (simp add: toggleClick_def deselectAllExcept_Single)


text \<open>
  C7. A ctrl-click on an item that is not selected selects it and pushes it on the
  stack of the group; a second ctrl-click on the same item then deselects it and
  leaves the stacks as they are, so that the top of the group's stack is still the
  item, now deselected. Neither click raises. (The stack is the one of the
  specification, see \<open>push\<close> and \<open>peek\<close>.)
\<close>

theorem ctrl_click_toggles:
  assumes unselected: "\<not> isSelected (selectedItemsList st) (smItem d)"
    and first: "ctrlClick d event1"
    and second: "ctrlClick d event2"
  shows "(let r1 = handleClick d event1 st; st1 = snd (outcome r1);
              r2 = handleClick d event2 st1; st2 = snd (outcome r2)
          in \<not> threw r1 \<and> isSelected (selectedItemsList st1) (smItem d)
           \<and> stacks st1 = push (clickStackId d) (smItem d) (stacks st)
           \<and> peek (clickStackId d) (stacks st1) = Some (smItem d)
           \<and> \<not> threw r2 \<and> \<not> isSelected (selectedItemsList st2) (smItem d)
           \<and> stacks st2 = stacks st1
           \<and> peek (clickStackId d) (stacks st2) = Some (smItem d))"
proof -
  from toggleClick_unselected [OF unselected] obtain st1 where
    t1: "toggleClick d st = Done st1"
    and k1: "stacks st1 = push (clickStackId d) (smItem d) (stacks st)"
    and s1: "isSelected (selectedItemsList st1) (smItem d)"
    and m1: "isMultiMode (smMode d) \<longrightarrow>
               selectedItemsList st1 = selectItem (smItem d) (selectedItemsList st)"
    by blast
  from toggleClick_selected [OF s1] obtain st2 where
    t2: "toggleClick d st1 = Done st2"
    and k2: "stacks st2 = stacks st1"
    and l2: "selectedItemsList st2 =
               deselectItem (smItem d)
                 (if isMultiMode (smMode d) then selectedItemsList st1
                  else selectedItems (outcome (deselectAllItemsExcept (allItems d)
                         (Single (smItem d)) (selectedItemsList st1))))"
    by blast
  have gone: "\<not> isSelected (selectedItemsList st2) (smItem d)"
  proof (cases "isMultiMode (smMode d)")
    case True
    with m1 l2 have "selectedItemsList st2 = selectedItemsList st"
      by (simp add: deselect_select [OF unselected])
    with unselected show ?thesis by simp
  next
    case False
    with l2 show ?thesis
      by (simp add: isSelected_iff absent_deselectItem distinct_deselectAllItemsExcept)
  qed
  have h1: "handleClick d event1 st = Done (markHandled event1, st1)"
    by (simp add: handleClick_ctrlClick [OF first] t1)
  have h2: "handleClick d event2 st1 = Done (markHandled event2, st2)"
    by (simp add: handleClick_ctrlClick [OF second] t2)
  show ?thesis
    by (simp add: Let_def h1 h2 s1 k1 k2 gone peek_push)
qed

theorem ctrl_click_toggles_witness:
  "\<not> isSelected (selectedItemsList (initialState\<lparr>selectedItemsList := [Item 0 1]\<rparr>))
        (smItem (scenarioRow Rethrow (Item 3 4)))
   \<and> ctrlClick (scenarioRow Rethrow (Item 3 4)) (clickWith True False)
   \<and> (let d = scenarioRow Rethrow (Item 3 4);
           st = initialState\<lparr>selectedItemsList := [Item 0 1]\<rparr>;
           r1 = handleClick d (clickWith True False) st; st1 = snd (outcome r1);
           r2 = handleClick d (clickWith True False) st1; st2 = snd (outcome r2)
       in \<not> threw r1 \<and> isSelected (selectedItemsList st1) (smItem d)
        \<and> stacks st1 = push (clickStackId d) (smItem d) (stacks st)
        \<and> peek (clickStackId d) (stacks st1) = Some (smItem d)
        \<and> \<not> threw r2 \<and> \<not> isSelected (selectedItemsList st2) (smItem d)
        \<and> stacks st2 = stacks st1
        \<and> peek (clickStackId d) (stacks st2) = Some (smItem d))"
proof -
  have u: "\<not> isSelected (selectedItemsList (initialState\<lparr>selectedItemsList := [Item 0 1]\<rparr>))
        (smItem (scenarioRow Rethrow (Item 3 4)))"
    by (simp add: isSelected_def indexOfTrackBy_def scenarioRow_def)
  have c: "ctrlClick (scenarioRow Rethrow (Item 3 4)) (clickWith True False)"
    by (simp add: ctrlClick_def ignoreRequested_def clickHandled_def labelSuppressed_def
        clickWith_def)
  show ?thesis
    unfolding Let_def
    using u c ctrl_click_toggles [OF u c c, unfolded Let_def] by blast
qed

subsection \<open>Uniqueness of track-by values\<close>

lemma distinct_betweenBody:
  "distinct (map trackBy (snd (snd acc))) \<Longrightarrow>
   distinct (map trackBy (snd (snd (betweenBody this lastItem item acc))))"
  by (cases acc) (simp add: Let_def distinct_selectItem)

lemma distinct_fold_betweenBody:
  "distinct (map trackBy (snd (snd acc))) \<Longrightarrow>
   distinct (map trackBy (snd (snd (fold (betweenBody this lastItem) items acc))))"
  by (induction items arbitrary: acc) (simp_all add: distinct_betweenBody del: betweenBody.simps)

lemma distinct_selectItemsBetween:
  "distinct (map trackBy selected) \<Longrightarrow>
   distinct (map trackBy (selectItemsBetween this items lastItem selected))"
  by (simp add: selectItemsBetween_def Let_def distinct_fold_betweenBody)

lemma distinct_deselectAllExcept:
  "distinct (map trackBy (selectedItemsList (outcome (deselectAllExcept d except st))))"
  by (simp add: deselectAllExcept_def outcome_map_result distinct_deselectAllItemsExcept)

lemma selectedItemsList_scopeApply:
  "selectedItemsList (outcome (scopeApply d r)) = selectedItemsList (outcome r)"
  by (cases r; cases "exceptionHandler d") (simp_all add: scopeApply_def)

lemma distinct_rangeClick:
  assumes "distinct (map trackBy (selectedItemsList st))"
  shows "distinct (map trackBy (selectedItemsList (outcome (rangeClick d ctrl st))))"
proof (cases ctrl)
  case True
  with assms show ?thesis by (simp add: rangeClick_def distinct_selectItemsBetween)
next
  case False
  let ?r = "scopeApply d (deselectAllExcept d
      (Range (Some (smItem d)) (peek (clickStackId d) (stacks st))) st)"
  have "distinct (map trackBy (selectedItemsList (outcome ?r)))"
    by (simp add: selectedItemsList_scopeApply distinct_deselectAllExcept)
  with False show ?thesis
    by (cases ?r) (simp_all add: rangeClick_def distinct_selectItemsBetween)
qed

lemma distinct_toggleClick:
  assumes "distinct (map trackBy (selectedItemsList st))"
  shows "distinct (map trackBy (selectedItemsList (outcome (toggleClick d st))))"
proof -
  have "distinct (map trackBy (selectedItemsList
      (outcome (deselectAllExcept d (Single (smItem d)) st))))"
    by (rule distinct_deselectAllExcept)
  with assms show ?thesis
    by (simp add: toggleClick_def deselectAllExcept_Single distinct_selectItem
        distinct_deselectItem)
qed

lemma distinct_plainClick:
  "distinct (map trackBy (selectedItemsList (outcome (plainClick d st))))"
  using distinct_deselectAllExcept [of d "Single (smItem d)" st]
  by (simp add: plainClick_def deselectAllExcept_Single distinct_selectItem)

lemma distinct_handleClick:
  assumes "distinct (map trackBy (selectedItemsList st))"
  shows "distinct (map trackBy (selectedItemsList (snd (outcome (handleClick d event st)))))"
  using assms
  by (simp add: handleClick_def Let_def outcome_map_result distinct_rangeClick
      distinct_toggleClick distinct_plainClick)

lemma distinct_perform:
  "distinct (map trackBy (selectedItemsList st)) \<Longrightarrow>
   distinct (map trackBy (selectedItemsList (perform operation st)))"
  by (cases operation)
     (simp_all add: distinct_selectItem distinct_deselectItem distinct_deselectAllExcept
        distinct_selectItemsBetween distinct_handleClick)


text \<open>
  C5. When the track-by values of the selected items are pairwise distinct, they
  are so again after any sequence of the operations \<open>select\<close>, \<open>deselect\<close>,
  \<open>deselectAllExcept\<close>, \<open>selectBetween\<close> and click handling, also when one of
  the operations raises on the way.
\<close>

theorem selection_stays_unique:
  "distinct (map trackBy (selectedItemsList st)) \<Longrightarrow>
   distinct (map trackBy (selectedItemsList (fold perform operations st)))"
  by (induction operations arbitrary: st) (simp_all add: distinct_perform)

theorem selection_stays_unique_witness:
  "distinct (map trackBy (selectedItemsList (initialState\<lparr>selectedItemsList := [Item 3 4, Item 0 (1::int)]\<rparr>)))
   \<and> distinct (map trackBy (selectedItemsList
        (fold perform
           [Select (Item 7 1), Click (scenarioRow Rethrow (Item 2 3)) (clickWith False True),
            Deselect (Item 3 4), SelectBetween (scenarioRow Rethrow (Item 2 3)) (Some (Item 0 1)),
            DeselectAllExcept (scenarioRow Rethrow (Item 2 3)) (Range (Some (Item 1 2)) (Some (Item 3 4))),
            Click (scenarioRow Rethrow (Item 3 4)) (clickWith True False)]
           (initialState\<lparr>selectedItemsList := [Item 3 4, Item 0 1]\<rparr>))))"
proof -
  have d: "distinct (map trackBy (selectedItemsList (initialState\<lparr>selectedItemsList := [Item 3 4, Item 0 (1::int)]\<rparr>)))"
    by simp
  show ?thesis
    using d selection_stays_unique [OF d] by blast
qed

subsection \<open>The range between two items\<close>

text \<open>
  C6. On a collection \<open>[a, b, c, d, e]\<close> with distinct track-by values, which is
  both the full and the visible collection, and from any list of selected items,
  \<open>deselectAllItemsExcept([b, d])\<close> followed by \<open>selectItemsBetween(b)\<close> in the row
  of \<open>d\<close> yields the selection \<open>[b, c, d]\<close>, whose set of track-by values is that
  of \<open>b\<close>, \<open>c\<close> and \<open>d\<close>. The first call already selects the three items, and the
  second adds nothing.
\<close>

theorem range_is_inclusive:
  assumes "distinct (map trackBy [a, b, c, d, e])"
  shows "(let r = deselectAllItemsExcept [a, b, c, d, e] (Range (Some b) (Some d)) selected;
              result = selectItemsBetween d [a, b, c, d, e] (Some b) (selectedItems (outcome r))
          in \<not> threw r \<and> selectedItems (outcome r) = [b, c, d] \<and> result = [b, c, d]
           \<and> trackBy ` set result = {trackBy b, trackBy c, trackBy d})"
proof -
  from assms have ne:
    "trackBy a \<noteq> trackBy b" "trackBy a \<noteq> trackBy c" "trackBy a \<noteq> trackBy d"
    "trackBy a \<noteq> trackBy e" "trackBy b \<noteq> trackBy c" "trackBy b \<noteq> trackBy d"
    "trackBy b \<noteq> trackBy e" "trackBy c \<noteq> trackBy d" "trackBy c \<noteq> trackBy e"
    "trackBy d \<noteq> trackBy e"
    by auto
  note ne' = ne ne [symmetric]
  have sweep: "deselectAllItemsExcept [a, b, c, d, e] (Range (Some b) (Some d)) selected
      = Done \<lparr>exceptArray = [], numItemsFound = 2, doSelect = False, selectedItems = [b, c, d]\<rparr>"
    using ne'
    by (simp add: deselectAllItemsExcept_def deselectBody_def selectOrRemove_def isRange_def
        indexOfTrackBy_undef_def splice1_def selectItem_eq deselectItem_Nil deselectItem_Cons)
  have between: "selectItemsBetween d [a, b, c, d, e] (Some b) [b, c, d] = [b, c, d]"
    using ne' by (simp add: selectItemsBetween_def Let_def selectItem_eq)
  show ?thesis
    by (simp add: Let_def sweep between)
qed

theorem range_is_inclusive_witness:
  "distinct (map trackBy [Item 0 (1::int), Item 1 2, Item 2 3, Item 3 4, Item 4 5])
   \<and> (let r = deselectAllItemsExcept [Item 0 (1::int), Item 1 2, Item 2 3, Item 3 4, Item 4 5]
                (Range (Some (Item 1 2)) (Some (Item 3 4))) [Item 4 5, Item 0 1];
           result = selectItemsBetween (Item 3 4) [Item 0 1, Item 1 2, Item 2 3, Item 3 4, Item 4 5]
                      (Some (Item 1 2)) (selectedItems (outcome r))
       in \<not> threw r \<and> selectedItems (outcome r) = [Item 1 2, Item 2 3, Item 3 4]
        \<and> result = [Item 1 2, Item 2 3, Item 3 4]
        \<and> trackBy ` set result = {trackBy (Item 1 (2::int)), trackBy (Item 2 (3::int)), trackBy (Item 3 (4::int))})"
proof -
  have d: "distinct (map trackBy [Item 0 (1::int), Item 1 2, Item 2 3, Item 3 4, Item 4 5])"
    by simp
  show ?thesis
    using d range_is_inclusive [OF d, of "[Item 4 5, Item 0 1]"] by blast
qed

subsection \<open>The pair array of deselectAllItemsExcept\<close>

lemma forEach_append:
  "forEach body (xs @ ys) s =
     (case forEach body xs s of Done s' \<Rightarrow> forEach body ys s' | Threw e s' \<Rightarrow> Threw e s')"
  by (induction xs arbitrary: s) (simp_all split: result.splits)

lemma indexOfTrackBy_undef_from_Some:
  "indexOfTrackBy_undef_from i (map Some es) x = Inr (indexOfTrackBy_from i es x)"
  by (induction es arbitrary: i) simp_all

lemma indexOfTrackBy_undef_Some:
  "indexOfTrackBy_undef (map Some es) x = Inr (indexOfTrackBy es x)"
  by (simp add: indexOfTrackBy_undef_def indexOfTrackBy_def indexOfTrackBy_undef_from_Some)

lemma splice1_map: "splice1 i (map f xs) = map f (splice1 i xs)"
  by (simp add: splice1_def take_map drop_map)


text \<open>One turn of the loop on a pair array that holds no \<open>undefined\<close>.\<close>

lemma deselectBody_Range:
  assumes "exceptArray s = map Some es"
  shows "deselectBody (Range p q) item s =
     Done (s\<lparr>numItemsFound :=
                 (if trackBy item \<in> trackBy ` set es then numItemsFound s + 1
                  else numItemsFound s),
              doSelect := (trackBy item \<in> trackBy ` set es \<or> numItemsFound s = 1),
              exceptArray := map Some (deselectItem item es),
              selectedItems :=
                 (if trackBy item \<in> trackBy ` set es \<or> numItemsFound s = 1
                  then selectItem item (selectedItems s)
                  else deselectItem item (selectedItems s))\<rparr>)"
proof (cases "trackBy item \<in> trackBy ` set es")
  case True
  then show ?thesis
    using assms
    by (simp add: deselectBody_def isRange_def indexOfTrackBy_undef_Some selectOrRemove_def
        indexOfTrackBy_present splice1_map deselectItem_def)
next
  case False
  then show ?thesis
    using assms
    by (cases "numItemsFound s = 1")
       (auto simp add: deselectBody_def isRange_def indexOfTrackBy_undef_Some selectOrRemove_def
        indexOfTrackBy_absent deselectItem_def)
qed

lemma deselectItem_filter:
  "distinct (map trackBy xs) \<Longrightarrow> deselectItem x xs = filter (\<lambda>y. trackBy y \<noteq> trackBy x) xs"
proof (induction xs)
  case Nil
  then show ?case by (simp add: deselectItem_Nil)
next
  case (Cons y ys)
  show ?case
  proof (cases "trackBy y = trackBy x")
    case True
    with Cons.prems have "\<forall>z \<in> set ys. trackBy z \<noteq> trackBy x"
      by (metis distinct.simps(2) image_eqI list.simps(9) set_map)
    then have "filter (\<lambda>z. trackBy z \<noteq> trackBy x) ys = ys" by simp
    with True show ?thesis by (simp add: deselectItem_Cons)
  next
    case False
    with Cons show ?thesis by (simp add: deselectItem_Cons)
  qed
qed

lemma fold_deselectItem_filter:
  "distinct (map trackBy es) \<Longrightarrow>
   fold deselectItem xs es = filter (\<lambda>e. trackBy e \<notin> trackBy ` set xs) es"
proof (induction xs arbitrary: es)
  case Nil
  show ?case by simp
next
  case (Cons x xs)
  have d: "distinct (map trackBy (deselectItem x es))"
    using Cons.prems by (rule distinct_deselectItem)
  have e: "deselectItem x es = filter (\<lambda>y. trackBy y \<noteq> trackBy x) es"
    using Cons.prems by (rule deselectItem_filter)
  have "fold deselectItem (x # xs) es = fold deselectItem xs (deselectItem x es)"
    by simp
  also have "\<dots> = filter (\<lambda>e. trackBy e \<notin> trackBy ` set xs) (deselectItem x es)"
    using d by (rule Cons.IH)
  also have "\<dots> = filter (\<lambda>e. trackBy e \<notin> trackBy ` set (x # xs)) es"
    unfolding e by (auto intro: filter_cong)
  finally show ?case .
qed

lemma range_sweep_array:
  assumes "exceptArray s = map Some es"
  shows "\<not> threw (forEach (deselectBody (Range p q)) xs s)
     \<and> exceptArray (outcome (forEach (deselectBody (Range p q)) xs s))
         = map Some (fold deselectItem xs es)"
  using assms
proof (induction xs arbitrary: s es)
  case Nil
  then show ?case by simp
next
  case (Cons x xs)
  show ?case
    by (simp add: deselectBody_Range [OF Cons.prems] Cons.IH)
qed


text \<open>
  C10, amended. \<open>deselectAllItemsExcept\<close> changes the pair array of its caller in
  place: every item of the full collection, in order, removes from the array the
  first endpoint left in it that has the item's track-by value. For a pair of two
  items the call does not raise, and when the two endpoints have different
  track-by values the array holds afterwards exactly the endpoints whose track-by
  value no item of the collection has, in their order (none when both occur).
\<close>

theorem except_array_after_sweep:
  "\<not> threw (deselectAllItemsExcept items (Range (Some a) (Some b)) selected)
   \<and> exceptArray (outcome (deselectAllItemsExcept items (Range (Some a) (Some b)) selected))
       = map Some (fold deselectItem items [a, b])
   \<and> (trackBy a \<noteq> trackBy b \<longrightarrow>
        exceptArray (outcome (deselectAllItemsExcept items (Range (Some a) (Some b)) selected))
          = map Some (filter (\<lambda>e. trackBy e \<notin> trackBy ` set items) [a, b]))"
proof -
  have general:
    "\<not> threw (deselectAllItemsExcept items (Range (Some a) (Some b)) selected)
     \<and> exceptArray (outcome (deselectAllItemsExcept items (Range (Some a) (Some b)) selected))
         = map Some (fold deselectItem items [a, b])"
    unfolding deselectAllItemsExcept_def
    by (rule range_sweep_array) simp
  have "fold deselectItem items [a, b]
      = filter (\<lambda>e. trackBy e \<notin> trackBy ` set items) [a, b]"
    if "trackBy a \<noteq> trackBy b"
  proof -
    from that have "distinct (map trackBy [a, b])" by simp
    then show ?thesis by (rule fold_deselectItem_filter)
  qed
  with general show ?thesis by simp
qed

theorem except_array_after_sweep_witness:
  "trackBy (Item 2 (3::int)) \<noteq> trackBy (Item 8 (9::int))
   \<and> exceptArray (outcome (deselectAllItemsExcept scenarioItems
        (Range (Some (Item 2 3)) (Some (Item 8 9))) []))
       = map Some (filter (\<lambda>e. trackBy e \<notin> trackBy ` set scenarioItems) [Item 2 3, Item 8 9])
   \<and> map Some (filter (\<lambda>e. trackBy e \<notin> trackBy ` set scenarioItems) [Item 2 3, Item 8 9])
       = [Some (Item 8 9)]"
proof -
  have n: "trackBy (Item 2 (3::int)) \<noteq> trackBy (Item 8 (9::int))" by simp
  have v: "map Some (filter (\<lambda>e. trackBy e \<notin> trackBy ` set scenarioItems)
      [Item 2 3, Item 8 9]) = [Some (Item 8 9)]"
    by (simp add: scenarioItems_def)
  show ?thesis
    using n v except_array_after_sweep [of scenarioItems "Item 2 3" "Item 8 9" "[]"] by blast
qed

text \<open>
  As the claim is stated, for every pair, it fails when the two endpoints have the
  same track-by value, as in a shift-click on the anchor itself: the one item of
  the collection removes the first endpoint only, and the second stays in the
  array although its track-by value occurs in the collection.
\<close>

theorem except_array_same_key_counterexample:
  "trackBy (Item 0 (1::int)) \<in> trackBy ` set [Item 0 1]
   \<and> \<not> threw (deselectAllItemsExcept [Item 0 (1::int)] (Range (Some (Item 0 1)) (Some (Item 0 1))) [])
   \<and> exceptArray (outcome (deselectAllItemsExcept [Item 0 (1::int)]
        (Range (Some (Item 0 1)) (Some (Item 0 1))) [])) = [Some (Item 0 1)]
   \<and> exceptArray (outcome (deselectAllItemsExcept [Item 0 (1::int)]
        (Range (Some (Item 0 1)) (Some (Item 0 1))) [])) \<noteq> []"
  by (simp add: model_defs)

subsection \<open>A pair of which one endpoint is in the collection\<close>

lemma keys_fold_selectItem:
  "trackBy ` set (fold selectItem xs ys) = trackBy ` set xs \<union> trackBy ` set ys"
  by (induction xs arbitrary: ys) (auto simp: keys_selectItem)

lemma range_sweep_before:
  assumes "exceptArray s = map Some es" "numItemsFound s = 0" "selectedItems s = []"
    and "\<forall>x \<in> set xs. trackBy x \<notin> trackBy ` set es"
  shows "\<exists>s'. forEach (deselectBody (Range p q)) xs s = Done s'
     \<and> exceptArray s' = map Some es \<and> numItemsFound s' = 0 \<and> selectedItems s' = []"
  using assms
proof (induction xs arbitrary: s)
  case Nil
  then show ?case by simp
next
  case (Cons x xs)
  from Cons.prems(4) have x: "trackBy x \<notin> trackBy ` set es"
    and xs: "\<forall>x \<in> set xs. trackBy x \<notin> trackBy ` set es" by simp_all
  from x have keep: "deselectItem x es = es" by (simp add: deselectItem_eq)
  define s1 where "s1 = s\<lparr>numItemsFound := 0, doSelect := False,
    exceptArray := map Some es, selectedItems := []\<rparr>"
  have step: "deselectBody (Range p q) x s = Done s1"
    using Cons.prems(2,3) x keep
    by (simp add: deselectBody_Range [OF Cons.prems(1)] deselectItem_Nil s1_def)
  have "\<exists>s'. forEach (deselectBody (Range p q)) xs s1 = Done s'
     \<and> exceptArray s' = map Some es \<and> numItemsFound s' = 0 \<and> selectedItems s' = []"
    by (rule Cons.IH) (simp_all add: s1_def xs)
  with step show ?case by simp
qed

lemma range_sweep_after:
  assumes "exceptArray s = map Some es" "numItemsFound s = 1"
    and "\<forall>x \<in> set xs. trackBy x \<notin> trackBy ` set es"
  shows "\<exists>s'. forEach (deselectBody (Range p q)) xs s = Done s'
     \<and> exceptArray s' = map Some es \<and> numItemsFound s' = 1
     \<and> selectedItems s' = fold selectItem xs (selectedItems s)"
  using assms
proof (induction xs arbitrary: s)
  case Nil
  then show ?case by simp
next
  case (Cons x xs)
  from Cons.prems(3) have x: "trackBy x \<notin> trackBy ` set es"
    and xs: "\<forall>x \<in> set xs. trackBy x \<notin> trackBy ` set es" by simp_all
  from x have keep: "deselectItem x es = es" by (simp add: deselectItem_eq)
  define s1 where "s1 = s\<lparr>numItemsFound := 1, doSelect := True,
    exceptArray := map Some es, selectedItems := selectItem x (selectedItems s)\<rparr>"
  have step: "deselectBody (Range p q) x s = Done s1"
    using Cons.prems(2) x keep
    by (simp add: deselectBody_Range [OF Cons.prems(1)] s1_def)
  have "\<exists>s'. forEach (deselectBody (Range p q)) xs s1 = Done s'
     \<and> exceptArray s' = map Some es \<and> numItemsFound s' = 1
     \<and> selectedItems s' = fold selectItem xs (selectedItems s1)"
    by (rule Cons.IH) (simp_all add: s1_def xs)
  with step show ?case by (simp add: s1_def)
qed


lemma one_endpoint_sweep:
  assumes matched: "trackBy m \<in> trackBy ` set items"
    and other: "trackBy other \<notin> trackBy ` set items"
    and pair: "(a = m \<and> b = other) \<or> (a = other \<and> b = m)"
  shows "\<exists>s'. deselectAllItemsExcept items (Range (Some a) (Some b)) selected = Done s'
     \<and> exceptArray s' = [Some other] \<and> numItemsFound s' = 1
     \<and> selectedItems s' = fold selectItem (fromFirstMatch a b items) []"
proof -
  let ?P = "\<lambda>item. trackBy item \<noteq> trackBy a \<and> trackBy item \<noteq> trackBy b"
  let ?body = "deselectBody (Range (Some a) (Some b))"
  let ?s0 = "\<lparr>exceptArray = [Some a, Some b], numItemsFound = 0, doSelect = True,
              selectedItems = []\<rparr>"
  from matched other have differ: "trackBy m \<noteq> trackBy other" by auto
  from matched obtain x where x: "x \<in> set items" "trackBy x = trackBy m"
    by (auto simp: image_iff)
  from x(2) pair have "\<not> ?P x" by auto
  with x(1) have "dropWhile ?P items \<noteq> []"
    by auto
  then obtain y rest where dw: "dropWhile ?P items = y # rest"
    by (cases "dropWhile ?P items") auto
  have split: "items = takeWhile ?P items @ y # rest"
    using takeWhile_dropWhile_id [of ?P items] dw by simp
  have ny: "\<not> ?P y"
    using hd_dropWhile [of ?P items] dw by simp
  have sub: "set (y # rest) \<subseteq> set items"
    using set_dropWhileD [of _ ?P items] dw by auto
  have yin: "trackBy y \<in> trackBy ` set items"
    using sub by simp
  have "trackBy y \<noteq> trackBy other"
  proof
    assume eq: "trackBy y = trackBy other"
    from yin have "trackBy other \<in> trackBy ` set items" unfolding eq .
    with other show False ..
  qed
  have y: "trackBy y = trackBy m"
  proof -
    from ny have "trackBy y = trackBy a \<or> trackBy y = trackBy b" by blast
    moreover from pair have "(trackBy a = trackBy m \<and> trackBy b = trackBy other)
        \<or> (trackBy a = trackBy other \<and> trackBy b = trackBy m)" by blast
    ultimately show ?thesis
      using \<open>trackBy y \<noteq> trackBy other\<close> by metis
  qed
  have restkeys: "\<forall>z \<in> set rest. trackBy z \<notin> trackBy ` set [other]"
  proof
    fix z assume "z \<in> set rest"
    with sub have "z \<in> set items" by auto
    then have "trackBy z \<in> trackBy ` set items" by (rule imageI)
    with other have "trackBy z \<noteq> trackBy other" by metis
    then show "trackBy z \<notin> trackBy ` set [other]" by simp
  qed
  have prekeys: "\<forall>z \<in> set (takeWhile ?P items). trackBy z \<notin> trackBy ` set [a, b]"
  proof
    fix z assume "z \<in> set (takeWhile ?P items)"
    then have "?P z" by (rule set_takeWhileD [THEN conjunct2])
    then show "trackBy z \<notin> trackBy ` set [a, b]" by simp
  qed
  have "\<exists>s1. forEach ?body (takeWhile ?P items) ?s0 = Done s1
      \<and> exceptArray s1 = map Some [a, b] \<and> numItemsFound s1 = 0 \<and> selectedItems s1 = []"
    by (rule range_sweep_before [OF _ _ _ prekeys]) simp_all
  then obtain s1 where
    f1: "forEach ?body (takeWhile ?P items) ?s0 = Done s1"
    and e1: "exceptArray s1 = map Some [a, b]"
    and n1: "numItemsFound s1 = 0" and l1: "selectedItems s1 = []"
    by blast
  define s2 where "s2 = s1\<lparr>numItemsFound := 1, doSelect := True,
    exceptArray := map Some [other], selectedItems := [y]\<rparr>"
  have rm: "deselectItem y [a, b] = [other]"
    using pair y differ by (auto simp: deselectItem_Cons deselectItem_Nil)
  have ykey: "trackBy y \<in> trackBy ` set [a, b]"
    using pair y by auto
  have f2: "?body y s1 = Done s2"
    using ykey n1 l1 rm
    by (simp add: deselectBody_Range [OF e1] s2_def selectItem_eq)
  have "\<exists>s3. forEach ?body rest s2 = Done s3
      \<and> exceptArray s3 = map Some [other] \<and> numItemsFound s3 = 1
      \<and> selectedItems s3 = fold selectItem rest (selectedItems s2)"
    by (rule range_sweep_after [OF _ _ restkeys]) (simp_all add: s2_def)
  then obtain s3 where
    f3: "forEach ?body rest s2 = Done s3"
    and e3: "exceptArray s3 = map Some [other]"
    and n3: "numItemsFound s3 = 1"
    and l3: "selectedItems s3 = fold selectItem rest (selectedItems s2)"
    by blast
  have "forEach ?body items ?s0 = forEach ?body (takeWhile ?P items @ y # rest) ?s0"
    using split by simp
  also have "\<dots> = Done s3"
    by (simp add: forEach_append f1 f2 f3)
  finally have run: "deselectAllItemsExcept items (Range (Some a) (Some b)) selected = Done s3"
    by (simp add: deselectAllItemsExcept_def)
  have "selectedItems s3 = fold selectItem (fromFirstMatch a b items) []"
    using l3 dw by (simp add: fromFirstMatch_def s2_def selectItem_eq)
  with run e3 n3 show ?thesis by simp
qed

text \<open>
  C2, amended. When exactly one of the two endpoints of the pair occurs (by its
  track-by value) in the full collection, \<open>deselectAllItemsExcept\<close> does not
  raise. The list of selected items is afterwards the list that \<open>selectItem\<close>
  builds from the empty list when it is given, in order, the items of the
  collection from the first one that matches the endpoint to the end of the
  collection; its set of track-by values is the set of track-by values of that
  part of the collection.
\<close>

theorem one_endpoint_selects_to_the_end:
  assumes "(trackBy a \<in> trackBy ` set items) \<noteq> (trackBy b \<in> trackBy ` set items)"
  shows "\<not> threw (deselectAllItemsExcept items (Range (Some a) (Some b)) selected)
     \<and> selectedItems (outcome (deselectAllItemsExcept items (Range (Some a) (Some b)) selected))
         = fold selectItem (fromFirstMatch a b items) []
     \<and> trackBy ` set (selectedItems
           (outcome (deselectAllItemsExcept items (Range (Some a) (Some b)) selected)))
         = trackBy ` set (fromFirstMatch a b items)"
proof -
  have "\<exists>s'. deselectAllItemsExcept items (Range (Some a) (Some b)) selected = Done s'
     \<and> selectedItems s' = fold selectItem (fromFirstMatch a b items) []"
  proof (cases "trackBy a \<in> trackBy ` set items")
    case True
    with assms have "trackBy b \<notin> trackBy ` set items" by simp
    from one_endpoint_sweep [OF True this, of a b selected] show ?thesis by auto
  next
    case False
    with assms have "trackBy b \<in> trackBy ` set items" by simp
    from one_endpoint_sweep [OF this False, of a b selected] show ?thesis by auto
  qed
  then obtain s' where
    run: "deselectAllItemsExcept items (Range (Some a) (Some b)) selected = Done s'"
    and sel: "selectedItems s' = fold selectItem (fromFirstMatch a b items) []"
    by blast
  have "trackBy ` set (selectedItems s') = trackBy ` set (fromFirstMatch a b items)"
    unfolding sel by (simp add: keys_fold_selectItem)
  with run sel show ?thesis by simp
qed

theorem one_endpoint_selects_to_the_end_witness:
  "(trackBy (Item 8 (9::int)) \<in> trackBy ` set scenarioItems)
     \<noteq> (trackBy (Item 2 (3::int)) \<in> trackBy ` set scenarioItems)
   \<and> \<not> threw (deselectAllItemsExcept scenarioItems (Range (Some (Item 8 9)) (Some (Item 2 3)))
          [Item 0 1])
   \<and> selectedItems (outcome (deselectAllItemsExcept scenarioItems
          (Range (Some (Item 8 9)) (Some (Item 2 3))) [Item 0 1]))
       = fold selectItem (fromFirstMatch (Item 8 9) (Item 2 3) scenarioItems) []
   \<and> trackBy ` set (selectedItems (outcome (deselectAllItemsExcept scenarioItems
          (Range (Some (Item 8 9)) (Some (Item 2 3))) [Item 0 1])))
       = trackBy ` set (fromFirstMatch (Item 8 9) (Item 2 3) scenarioItems)
   \<and> fold selectItem (fromFirstMatch (Item 8 9) (Item 2 3) scenarioItems) []
       = [Item 2 3, Item 3 4]"
proof -
  have h: "(trackBy (Item 8 (9::int)) \<in> trackBy ` set scenarioItems)
     \<noteq> (trackBy (Item 2 (3::int)) \<in> trackBy ` set scenarioItems)"
    by (simp add: scenarioItems_def)
  have v: "fold selectItem (fromFirstMatch (Item 8 9) (Item 2 3) scenarioItems) []
      = [Item 2 3, Item 3 4]"
    by (simp add: fromFirstMatch_def scenarioItems_def selectItem_def indexOfTrackBy_def)
  show ?thesis
    using h v one_endpoint_selects_to_the_end [OF h, of "[Item 0 1]"] by blast
qed

text \<open>
  As the claim is stated, the selection would hold the matched item and nothing
  else. In the scenario, with the pair of item 2 and an item that is not in the
  collection, the items 3 and 4 are selected too: once one endpoint is found,
  \<open>1 === numItemsFound\<close> holds for every later item.
\<close>

theorem one_endpoint_counterexample:
  "trackBy (Item 1 (2::int)) \<in> trackBy ` set scenarioItems
   \<and> trackBy (Item 8 (9::int)) \<notin> trackBy ` set scenarioItems
   \<and> selectedItems (outcome (deselectAllItemsExcept scenarioItems
        (Range (Some (Item 1 2)) (Some (Item 8 9))) []))
       = [Item 1 2, Item 2 3, Item 3 4]
   \<and> selectedItems (outcome (deselectAllItemsExcept scenarioItems
        (Range (Some (Item 1 2)) (Some (Item 8 9))) []))
       \<noteq> [Item 1 2]"
  by (simp add: model_defs scenario_defs)

end
